theory Spec2Isabelle
  imports Complex_Main
begin

section \<open>Python and shell primitives used by the scripts\<close>

text \<open>
  Strings are byte lists. \<open>startswith\<close> and \<open>lower\<close> are Python's \<open>str.startswith\<close>
  and \<open>str.lower\<close> on ASCII text: \<open>lower\<close> maps \<open>A\<close>..\<open>Z\<close> (codes 65..90) to
  \<open>a\<close>..\<open>z\<close> and leaves every other byte alone.
\<close>

definition startswith :: "string \<Rightarrow> string \<Rightarrow> bool" where
  "startswith s p = (take (length p) s = p)"

definition lower_char :: "char \<Rightarrow> char" where
  "lower_char c =
     (let n = (of_char c :: nat) in if 65 \<le> n \<and> n \<le> 90 then char_of (n + 32) else c)"

definition lower :: "string \<Rightarrow> string" where
  "lower s = map lower_char s"

definition upper_char :: "char \<Rightarrow> char" where
  "upper_char c =
     (let n = (of_char c :: nat) in if 97 \<le> n \<and> n \<le> 122 then char_of (n - 32) else c)"

definition upper :: "string \<Rightarrow> string" where
  "upper s = map upper_char s"

text \<open>Python's \<open>str(n)\<close> for an integer: decimal digits, with a minus sign when negative.\<close>

definition digit_char :: "nat \<Rightarrow> char" where
  "digit_char d = char_of (48 + d)"

fun str_nat :: "nat \<Rightarrow> string" where
  "str_nat n = (if n < 10 then [digit_char n] else str_nat (n div 10) @ [digit_char (n mod 10)])"

declare str_nat.simps [simp del]

definition str :: "int \<Rightarrow> string" where
  "str i = (if i < 0 then CHR ''-'' # str_nat (nat (- i)) else str_nat (nat i))"

text \<open>\<open>quoted s\<close> is \<open>s\<close> between two apostrophes, as \<open>f"'{s}'"\<close> writes it.\<close>

definition quoted :: "string \<Rightarrow> string" where
  "quoted s = CHR 0x27 # s @ [CHR 0x27]"

text \<open>
  Every way a script stops early is a value of \<open>error\<close>; \<open>exit_status\<close> is the status
  the process then ends with. \<open>sys.exit(msg)\<close> and \<open>raise SystemExit(msg)\<close> print the
  message and end with status 1, an uncaught exception (\<open>CalledProcessError\<close>,
  \<open>ArgumentError\<close>) ends with a traceback and status 1, and an argument that
  \<open>parse_args\<close> rejects ends with status 2.
\<close>

datatype error =
    Not_root                        \<comment> \<open>\<open>sys.exit("Run this script as root (sudo).")\<close>\<close>
  | No_device                       \<comment> \<open>\<open>sys.exit("No --device specified. See --help.")\<close>\<close>
  | Device_does_not_exist string    \<comment> \<open>\<open>SystemExit(f"Device {device} does not exist.")\<close>\<close>
  | Not_a_dev_path                  \<comment> \<open>\<open>SystemExit("Specify a full block-device path, ...")\<close>\<close>
  | Not_removable string            \<comment> \<open>\<open>SystemExit("... does not look like a removable drive ...")\<close>\<close>
  | Unsupported_filesystem string   \<comment> \<open>\<open>SystemExit(f"Unsupported filesystem '{fs_name}'")\<close>\<close>
  | CalledProcessError "string list"  \<comment> \<open>\<open>subprocess.run(cmd, check=True)\<close> saw a non-zero status\<close>
  | ArgumentTypeError string        \<comment> \<open>\<open>argparse.ArgumentTypeError\<close> raised by a \<open>type=\<close> callback\<close>
  | Argparse_error string           \<comment> \<open>any other error \<open>parse_args\<close> reports\<close>
  | ArgumentError "string list"    \<comment> \<open>\<open>argparse.ArgumentError\<close>: conflicting option strings, uncaught\<close>
  | Root_required                   \<comment> \<open>the wipe scripts' \<open>sys.exit(1)\<close> after the root message\<close>
  | Usage                           \<comment> \<open>the wrapper's \<open>usage; exit 1\<close>\<close>
  | Shell_err string                \<comment> \<open>the wrapper's \<open>err\<close>: message and \<open>exit 1\<close>\<close>

fun exit_status :: "error \<Rightarrow> int" where
  "exit_status (ArgumentTypeError _) = 2"
| "exit_status (Argparse_error _) = 2"
| "exit_status _ = 1"

section \<open>usb\_tool.py\<close>

subsection \<open>Device discovery\<close>

text \<open>
  \<open>udev_device\<close> is what \<open>pyudev\<close> reports for one disk: its device node and the
  properties and attributes \<open>list_block_devices\<close> reads, each absent or present.
\<close>

record udev_device =
  device_node :: string
  ID_TYPE :: "string option"
  ID_MODEL :: "string option"
  attr_size :: "int option"
  attr_removable :: "int option"
  ID_BUS :: "string option"

record block_device =
  name :: string
  model :: string
  size_bytes :: int
  removable :: bool
  bus :: string

definition get_default :: "'a option \<Rightarrow> 'a \<Rightarrow> 'a" where
  "get_default v d = (case v of None \<Rightarrow> d | Some x \<Rightarrow> x)"

definition summary :: "udev_device \<Rightarrow> block_device" where
  "summary dev =
     \<lparr> name = device_node dev,
       model = get_default (ID_MODEL dev) ''unknown'',
       size_bytes = get_default (attr_size dev) 0 * 512,
       removable = (get_default (attr_removable dev) 0 \<noteq> 0),
       bus = get_default (ID_BUS dev) ''?'' \<rparr>"

definition list_block_devices :: "udev_device list \<Rightarrow> block_device list" where
  "list_block_devices CTX = map summary (filter (\<lambda>dev. ID_TYPE dev \<noteq> Some ''cd'') CTX)"

text \<open>What a script does to the outside world, in order.\<close>

datatype event =
    Print string              \<comment> \<open>a line on the console\<close>
  | Print_devices "block_device list"  \<comment> \<open>\<open>print(json.dumps(devices, ...))\<close>\<close>
  | Run "string list"         \<comment> \<open>\<open>subprocess.run(cmd, check=True)\<close>, waited for\<close>
  | Get_size string           \<comment> \<open>\<open>get_size(path)\<close>: opens the target and reads its size\<close>
  | Popen "string list"       \<comment> \<open>\<open>subprocess.Popen(cmd)\<close>: a child process starts\<close>
  | Wait int                  \<comment> \<open>\<open>proc.wait()\<close> returned: the child has exited with this status\<close>
  | Summary int int           \<comment> \<open>the wrapper's pre-flight summary: block count and size in bytes\<close>
  | Copy int "string list"    \<comment> \<open>the wrapper's copy: \<open>--total\<close> and the \<open>dcfldd\<close> command\<close>
  | Report string int         \<comment> \<open>the wrapper's JSON report: file and \<open>bytes\<close> field\<close>

text \<open>
  A computation that appends to the event trace and either fails or returns a value;
  \<open>seq\<close> runs the second part only when the first did not fail, as an exception
  leaving a Python function would.
\<close>

type_synonym 'a prog = "event list \<Rightarrow> (error + 'a) \<times> event list"

definition ret :: "'a \<Rightarrow> 'a prog" where
  "ret x t = (Inr x, t)"

definition raise :: "error \<Rightarrow> 'a prog" where
  "raise e t = (Inl e, t)"

definition emit :: "event \<Rightarrow> unit prog" where
  "emit ev t = (Inr (), t @ [ev])"

definition seq :: "'a prog \<Rightarrow> ('a \<Rightarrow> 'b prog) \<Rightarrow> 'b prog" where
  "seq m f t = (case m t of (Inl e, t') \<Rightarrow> (Inl e, t') | (Inr x, t') \<Rightarrow> f x t')"

subsection \<open>Filesystem back-ends\<close>

record FSBackend =
  fs_name :: string
  mkfs_cmd :: "string list"
  repair_cmd :: "string list"

definition FAT32Backend :: FSBackend where
  "FAT32Backend =
     \<lparr> fs_name = ''fat32'', mkfs_cmd = [''mkfs.fat'', ''-F'', ''32''],
       repair_cmd = [''dosfsck'', ''-a''] \<rparr>"

definition EXT4Backend :: FSBackend where
  "EXT4Backend =
     \<lparr> fs_name = ''ext4'', mkfs_cmd = [''mkfs.ext4'', ''-F''],
       repair_cmd = [''e2fsck'', ''-pf''] \<rparr>"

definition NTFSBackend :: FSBackend where
  "NTFSBackend =
     \<lparr> fs_name = ''ntfs'', mkfs_cmd = [''mkntfs'', ''-Q'', ''-F''],
       repair_cmd = [''ntfsfix''] \<rparr>"

definition FS_TABLE :: "string \<rightharpoonup> FSBackend" where
  "FS_TABLE = map_of (map (\<lambda>b. (fs_name b, b)) [FAT32Backend, EXT4Backend, NTFSBackend])"

definition fs_backend :: "string \<Rightarrow> error + FSBackend" where
  "fs_backend fs =
     (case FS_TABLE (lower fs) of
        None \<Rightarrow> Inl (Unsupported_filesystem fs)
      | Some b \<Rightarrow> Inr b)"

subsection \<open>Core operations\<close>

text \<open>
  The machine the script runs on: the effective user id, which paths exist
  (\<open>Path(p).exists()\<close>, \<open>os.path.exists(p)\<close>), the udev database, which external
  commands succeed, what \<open>blkid\<close> prints for a device (nothing when it fails), and the
  exit status of each \<open>dd\<close> child process, numbered from 0 in the order they are started.
\<close>

record host =
  euid :: nat
  path_exists :: "string \<Rightarrow> bool"
  CTX :: "udev_device list"
  succeeds :: "string list \<Rightarrow> bool"
  blkid :: "string \<Rightarrow> string option"
  dd_status :: "nat \<Rightarrow> int"

definition is_root :: "host \<Rightarrow> bool" where
  "is_root h = (euid h = 0)"

text \<open>
  \<open>nodes_present h\<close> says of the host what \<open>pyudev\<close> says of \<open>device_node\<close>: the disks
  udev reports are named by their device nodes, paths under \<open>/dev/\<close> that exist.
\<close>

definition nodes_present :: "host \<Rightarrow> bool" where
  "nodes_present h =
     list_all (\<lambda>dev. path_exists h (device_node dev) \<and> startswith (device_node dev) ''/dev/'')
       (CTX h)"

definition sh :: "host \<Rightarrow> string list \<Rightarrow> unit prog" where
  "sh h cmd = seq (emit (Run cmd))
                  (\<lambda>_. if succeeds h cmd then ret () else raise (CalledProcessError cmd))"

definition sanity_check :: "host \<Rightarrow> string \<Rightarrow> bool \<Rightarrow> error + unit" where
  "sanity_check h device force =
     (if \<not> path_exists h device then Inl (Device_does_not_exist device)
      else if \<not> startswith device ''/dev/'' then Inl Not_a_dev_path
      else
        let is_removable =
              list_ex (\<lambda>d. name d = device \<and> removable d) (list_block_devices (CTX h))
        in if \<not> is_removable \<and> \<not> force then Inl (Not_removable device) else Inr ())"

definition create_single_partition :: "host \<Rightarrow> string \<Rightarrow> string \<Rightarrow> string prog" where
  "create_single_partition h device fs =
     seq (emit (Print ''Re-initialising partition table...'')) (\<lambda>_.
     seq (sh h [''parted'', ''-s'', device, ''mklabel'', ''gpt'']) (\<lambda>_.
     seq (sh h [''parted'', ''-s'', device, ''mkpart'', ''primary'', fs, ''1MiB'', ''100%'']) (\<lambda>_.
     seq (sh h [''partprobe'', device]) (\<lambda>_.
     ret (device @ ''1'')))))"

definition format :: "host \<Rightarrow> FSBackend \<Rightarrow> string \<Rightarrow> string option \<Rightarrow> unit prog" where
  "format h b part label =
     sh h (mkfs_cmd b @ (case label of None \<Rightarrow> [] | Some l \<Rightarrow> [''-n'', l]) @ [part])"

definition repair :: "host \<Rightarrow> FSBackend \<Rightarrow> string \<Rightarrow> unit prog" where
  "repair h b part = sh h (repair_cmd b @ [part])"

definition scan_badblocks :: "host \<Rightarrow> string \<Rightarrow> unit prog" where
  "scan_badblocks h device =
     seq (emit (Print ''Destructive *write* bad-blocks scan - this will erase data!''))
         (\<lambda>_. sh h [''badblocks'', ''-wsv'', device])"

subsection \<open>Command line and main\<close>

record cli =
  cli_list :: bool
  cli_device :: "string option"
  cli_format :: "string option"
  cli_label :: "string option"
  cli_repair :: bool
  cli_scan_badblocks :: bool
  cli_force :: bool

text \<open>
  \<open>parse_args\<close> receives the options as given and applies the one check the parser is
  built with: \<open>--format\<close> has \<open>choices=FS_TABLE.keys()\<close>.
\<close>

definition parse_args :: "cli \<Rightarrow> error + cli" where
  "parse_args argv =
     (case cli_format argv of
        None \<Rightarrow> Inr argv
      | Some f \<Rightarrow> (case FS_TABLE f of
                     None \<Rightarrow> Inl (Argparse_error f)
                   | Some _ \<Rightarrow> Inr argv))"

definition lift :: "error + 'a \<Rightarrow> 'a prog" where
  "lift r = (case r of Inl e \<Rightarrow> raise e | Inr x \<Rightarrow> ret x)"

definition blkid_TYPE :: "host \<Rightarrow> string \<Rightarrow> string prog" where
  "blkid_TYPE h device =
     (case blkid h device of
        None \<Rightarrow> raise (CalledProcessError [''blkid'', ''-o'', ''value'', ''-s'', ''TYPE'', device])
      | Some out \<Rightarrow> ret out)"

definition main :: "host \<Rightarrow> cli \<Rightarrow> unit prog" where
  "main h argv =
     seq (lift (parse_args argv)) (\<lambda>cli.
     if \<not> is_root h then raise Not_root
     else if cli_list cli then emit (Print_devices (list_block_devices (CTX h)))
     else
       (case cli_device cli of
          None \<Rightarrow> raise No_device
        | Some device \<Rightarrow>
            if device = [] then raise No_device
            else
              seq (lift (sanity_check h device (cli_force cli))) (\<lambda>_.
              (case cli_format cli of
                 Some fs \<Rightarrow>
                   seq (lift (fs_backend fs)) (\<lambda>backend.
                   seq (create_single_partition h device fs) (\<lambda>target_part.
                   seq (format h backend target_part (cli_label cli)) (\<lambda>_.
                   emit (Print (''Formatted '' @ target_part @ '' as '' @ upper fs @ ''.'')))))
               | None \<Rightarrow>
                   if cli_repair cli then
                     seq (blkid_TYPE h device) (\<lambda>blkid_out.
                     seq (lift (fs_backend blkid_out)) (\<lambda>backend.
                     seq (repair h backend device) (\<lambda>_.
                     emit (Print (''Repair finished on '' @ device @ ''.'')))))
                   else if cli_scan_badblocks cli then scan_badblocks h device
                   else emit (Print ''Nothing to do. See --help.'')))))"

section \<open>The numeric-expression parsers of the wipe scripts\<close>

subsection \<open>\<open>ast.parse\<close> followed by \<open>ast.literal_eval\<close>\<close>

text \<open>
  The parsers hand the expression to \<open>parse(..., mode='eval')\<close> and the tree to
  \<open>literal_eval\<close>, inside \<open>try: ... except Exception\<close>. The evaluator is modelled on the
  alphabet the size pattern admits: digits, \<open>+ - * / ( )\<close> and the blank. On that
  alphabet \<open>literal_eval\<close> (Python 3.7 and later) accepts three shapes of tree and raises
  \<open>ValueError\<close> on every other: an integer constant, a constant under one unary
  \<open>+\<close> or \<open>-\<close>, and the empty tuple \<open>()\<close>; a binary operator is accepted only with a
  complex right operand, which this alphabet cannot write. Parentheses leave no node in
  the tree. A text that begins with a blank is an \<open>IndentationError\<close>, a decimal
  literal with a leading zero that is not all zeros is a \<open>SyntaxError\<close>. Any character
  outside the alphabet is rejected by the model.
\<close>

datatype pyval = PyInt int | PyEmptyTuple

datatype tok = NUM nat | PLUS | MINUS | STAR | SLASH | DSTAR | DSLASH | LPAR | RPAR | BLANK

definition is_digit :: "char \<Rightarrow> bool" where
  "is_digit c = (let n = (of_char c :: nat) in 48 \<le> n \<and> n \<le> 57)"

definition nat_of_digits :: "string \<Rightarrow> nat" where
  "nat_of_digits ds = foldl (\<lambda>n c. 10 * n + (of_char c - 48)) 0 ds"

definition end_number :: "string \<Rightarrow> tok list \<Rightarrow> tok list option" where
  "end_number ds ts =
     (case ds of
        [] \<Rightarrow> Some ts
      | d # rest \<Rightarrow>
          if rest \<noteq> [] \<and> d = CHR ''0'' \<and> list_ex (\<lambda>c. c \<noteq> CHR ''0'') rest then None
          else Some (NUM (nat_of_digits ds) # ts))"

definition symbol :: "char \<Rightarrow> tok option" where
  "symbol c =
     (if c = CHR ''+'' then Some PLUS
      else if c = CHR ''-'' then Some MINUS
      else if c = CHR ''*'' then Some STAR
      else if c = CHR ''/'' then Some SLASH
      else if c = CHR ''('' then Some LPAR
      else if c = CHR '')'' then Some RPAR
      else if c = CHR '' '' then Some BLANK
      else None)"

text \<open>\<open>lex ds cs\<close> reads \<open>cs\<close> with the digits \<open>ds\<close> of an unfinished number pending.\<close>

fun lex :: "string \<Rightarrow> string \<Rightarrow> tok list option" where
  "lex ds [] = end_number ds []"
| "lex ds (c # cs) =
     (if is_digit c then lex (ds @ [c]) cs
      else
        (case symbol c of
           None \<Rightarrow> None
         | Some t \<Rightarrow> (case lex [] cs of None \<Rightarrow> None | Some ts \<Rightarrow> end_number ds (t # ts))))"

text \<open>Two-character operators are read greedily; blanks only separate tokens.\<close>

fun join_ops :: "tok list \<Rightarrow> tok list" where
  "join_ops (STAR # STAR # ts) = DSTAR # join_ops ts"
| "join_ops (SLASH # SLASH # ts) = DSLASH # join_ops ts"
| "join_ops (BLANK # ts) = join_ops ts"
| "join_ops (t # ts) = t # join_ops ts"
| "join_ops [] = []"

definition tokenize :: "string \<Rightarrow> tok list option" where
  "tokenize s = map_option join_ops (lex [] s)"

text \<open>
  \<open>unwrap ts\<close> removes the parentheses around \<open>ts\<close>: \<open>a\<close> opening ones in front and the
  same number of closing ones at the end; it fails when they are not there.
\<close>

definition unwrap :: "tok list \<Rightarrow> (nat \<times> tok list) option" where
  "unwrap ts =
     (let a = length (takeWhile (\<lambda>t. t = LPAR) ts);
          rest = drop a ts;
          n = length rest
      in if a \<le> n \<and> drop (n - a) rest = replicate a RPAR
         then Some (a, take (n - a) rest) else None)"

definition int_constant :: "tok list \<Rightarrow> nat option" where
  "int_constant ts = (case unwrap ts of Some (_, [NUM n]) \<Rightarrow> Some n | _ \<Rightarrow> None)"

definition literal_of_tokens :: "tok list \<Rightarrow> pyval option" where
  "literal_of_tokens ts =
     (case unwrap ts of
        None \<Rightarrow> None
      | Some (a, body) \<Rightarrow>
          (case body of
             [] \<Rightarrow> if 0 < a then Some PyEmptyTuple else None
           | [NUM n] \<Rightarrow> Some (PyInt (int n))
           | PLUS # r \<Rightarrow> map_option (\<lambda>n. PyInt (int n)) (int_constant r)
           | MINUS # r \<Rightarrow> map_option (\<lambda>n. PyInt (- int n)) (int_constant r)
           | _ \<Rightarrow> None))"

definition literal_eval :: "string \<Rightarrow> pyval option" where
  "literal_eval s =
     (case s of
        [] \<Rightarrow> None
      | c # _ \<Rightarrow>
          if c = CHR '' '' then None
          else (case tokenize s of None \<Rightarrow> None | Some ts \<Rightarrow> literal_of_tokens ts))"

subsection \<open>The size pattern\<close>

text \<open>
  \<open>re.fullmatch(r"\s*([0-9+\-*/() ]+)([MmGg])?[iI]?[Bb]?\s*", value)\<close>, with the
  backtracking order of the \<open>re\<close> module: each greedy repetition is tried at its
  longest first and then one character shorter at a time. After group 1 the rest is
  matched without choice, since no character belongs to two of the classes that follow.
  \<open>is_space\<close> is \<open>\s\<close> on ASCII: codes 9..13, 28..31 and the blank.
\<close>

definition is_space :: "char \<Rightarrow> bool" where
  "is_space c = (let n = (of_char c :: nat) in (9 \<le> n \<and> n \<le> 13) \<or> (28 \<le> n \<and> n \<le> 32))"

definition in_class :: "char \<Rightarrow> bool" where
  "in_class c = (is_digit c \<or> c \<in> set ''+-*/() '')"

definition optional :: "string \<Rightarrow> string \<Rightarrow> char option \<times> string" where
  "optional cls s =
     (case s of
        [] \<Rightarrow> (None, s)
      | c # r \<Rightarrow> if c \<in> set cls then (Some c, r) else (None, s))"

definition match_tail :: "string \<Rightarrow> char option option" where
  "match_tail s =
     (let (unit, s1) = optional ''MmGg'' s;
          (_, s2) = optional ''iI'' s1;
          (_, s3) = optional ''Bb'' s2
      in if list_all is_space s3 then Some unit else None)"

fun try_group1 :: "string \<Rightarrow> nat \<Rightarrow> (string \<times> char option) option" where
  "try_group1 s 0 = None"
| "try_group1 s (Suc j) =
     (case match_tail (drop (Suc j) s) of
        Some unit \<Rightarrow> Some (take (Suc j) s, unit)
      | None \<Rightarrow> try_group1 s j)"

definition match_group1 :: "string \<Rightarrow> (string \<times> char option) option" where
  "match_group1 s = try_group1 s (length (takeWhile in_class s))"

fun try_leading :: "string \<Rightarrow> nat \<Rightarrow> (string \<times> char option) option" where
  "try_leading s 0 = match_group1 s"
| "try_leading s (Suc i) =
     (case match_group1 (drop (Suc i) s) of
        Some m \<Rightarrow> Some m
      | None \<Rightarrow> try_leading s i)"

definition fullmatch :: "string \<Rightarrow> (string \<times> char option) option" where
  "fullmatch s = try_leading s (length (takeWhile is_space s))"

subsection \<open>secure-wipe-rich.py: \<open>parse_passes\<close> and \<open>parse_size\<close>\<close>

text \<open>
  \<open>parse_passes\<close> gives the whole argument to the evaluator, with no pattern in front.
  Python accepts there integer literals in other notations too (\<open>0x10\<close>, \<open>1_000\<close>);
  they lie outside the alphabet and the model rejects them.
\<close>

definition parse_passes :: "string \<Rightarrow> error + int" where
  "parse_passes v =
     (case literal_eval v of
        None \<Rightarrow> Inl (ArgumentTypeError (''Invalid passes '' @ quoted v))
      | Some PyEmptyTuple \<Rightarrow> Inl (ArgumentTypeError ''Passes must be positive integer'')
      | Some (PyInt number) \<Rightarrow>
          if number < 1 then Inl (ArgumentTypeError ''Passes must be positive integer'')
          else Inr number)"

text \<open>\<open>number *= k\<close>: an integer is multiplied, the empty tuple repeated \<open>k\<close> times is empty.\<close>

fun py_mul :: "pyval \<Rightarrow> int \<Rightarrow> pyval" where
  "py_mul (PyInt n) k = PyInt (n * k)"
| "py_mul PyEmptyTuple k = PyEmptyTuple"

definition parse_size :: "string \<Rightarrow> error + pyval" where
  "parse_size v =
     (case fullmatch v of
        None \<Rightarrow> Inl (ArgumentTypeError (''Invalid size '' @ quoted v))
      | Some (expr, unit) \<Rightarrow>
          (case literal_eval expr of
             None \<Rightarrow> Inl (ArgumentTypeError (''Invalid arithmetic in size '' @ quoted expr))
           | Some number \<Rightarrow>
               (case unit of
                  None \<Rightarrow> Inr number
                | Some u \<Rightarrow>
                    if lower_char u = CHR ''m'' then Inr (py_mul number (1024 ^ 2))
                    else Inr (py_mul number (1024 ^ 3)))))"

subsection \<open>wipe-rich.py: \<open>parse_numeric\<close>\<close>

definition parse_numeric :: "string \<Rightarrow> error + int" where
  "parse_numeric expr =
     (case fullmatch expr of
        None \<Rightarrow> Inl (ArgumentTypeError (''Invalid expression '' @ quoted expr))
      | Some (body, suff) \<Rightarrow>
          (case literal_eval body of
             None \<Rightarrow> Inl (ArgumentTypeError (''Cannot evaluate '' @ quoted body))
           | Some PyEmptyTuple \<Rightarrow> Inl (ArgumentTypeError ''Result must be positive integer: ()'')
           | Some (PyInt v) \<Rightarrow>
               if v < 1 then Inl (ArgumentTypeError (''Result must be positive integer: '' @ str v))
               else
                 (case suff of
                    None \<Rightarrow> Inr v
                  | Some u \<Rightarrow>
                      let factor = (if lower_char u = CHR ''m'' then 1024 ^ 2 else 1024 ^ 3)
                      in Inr (v * factor))))"

text \<open>The factor a unit suffix stands for in \<open>parse_size\<close> and \<open>parse_numeric\<close>.\<close>

definition unit_factor :: "char option \<Rightarrow> int" where
  "unit_factor suff =
     (case suff of None \<Rightarrow> 1 | Some u \<Rightarrow> if lower_char u = CHR ''m'' then 2 ^ 20 else 2 ^ 30)"

section \<open>The wipe scripts\<close>

subsection \<open>One target: \<open>wipe_one\<close> and \<open>wipe_target\<close>\<close>

definition basename :: "string \<Rightarrow> string" where
  "basename p = rev (takeWhile (\<lambda>c. c \<noteq> CHR ''/'') (rev p))"

fun join :: "string list \<Rightarrow> string" where
  "join [] = []"
| "join [x] = x"
| "join (x # y # ys) = x @ '' '' @ join (y # ys)"

fun str_pyval :: "pyval \<Rightarrow> string" where
  "str_pyval (PyInt n) = str n"
| "str_pyval PyEmptyTuple = ''()''"

fun is_Popen :: "event \<Rightarrow> bool" where
  "is_Popen (Popen _) = True"
| "is_Popen _ = False"

text \<open>
  One pass: \<open>Popen(cmd)\<close>, the loop over the child's \<open>stderr\<close> (it only moves the progress
  bar, and ends when the child closes the stream) and \<open>proc.wait()\<close>. The child is the
  next \<open>dd\<close> process of the run; its exit status comes from the host. That \<open>dd\<close> can
  be started is taken for granted.
\<close>

definition popen_wait :: "host \<Rightarrow> string list \<Rightarrow> int prog" where
  "popen_wait h cmd t =
     (let returncode = dd_status h (length (filter is_Popen t))
      in (Inr returncode, t @ [Popen cmd, Wait returncode]))"

text \<open>secure-wipe-rich.py. The recursion is the \<open>for p in range(1, passes+1)\<close> loop.\<close>

fun wipe_one_passes ::
  "host \<Rightarrow> string \<Rightarrow> string \<Rightarrow> pyval \<Rightarrow> int \<Rightarrow> int list \<Rightarrow> unit prog" where
  "wipe_one_passes h path source bs passes [] = ret ()"
| "wipe_one_passes h path source bs passes (p # ps) =
     seq (popen_wait h [''dd'', ''if='' @ source, ''of='' @ path, ''bs='' @ str_pyval bs,
                        ''status=progress''])
       (\<lambda>returncode.
          if returncode \<noteq> 0
          then emit (Print (''[red]ERROR[/] pass '' @ str p @ '' failed (code ''
                            @ str returncode @ '')''))
          else wipe_one_passes h path source bs passes ps)"

definition wipe_one :: "host \<Rightarrow> string \<Rightarrow> string \<Rightarrow> pyval \<Rightarrow> int \<Rightarrow> unit prog" where
  "wipe_one h path source bs passes =
     seq (emit (Get_size path)) (\<lambda>_. wipe_one_passes h path source bs passes [1..passes])"

text \<open>wipe-rich.py.\<close>

definition pass_desc :: "int \<Rightarrow> int \<Rightarrow> string \<Rightarrow> string" where
  "pass_desc p passes path = ''Pass '' @ str p @ ''/'' @ str passes @ '' on '' @ basename path"

fun wipe_target_passes ::
  "host \<Rightarrow> string \<Rightarrow> string \<Rightarrow> int \<Rightarrow> int \<Rightarrow> int list \<Rightarrow> unit prog" where
  "wipe_target_passes h path source bs passes [] = ret ()"
| "wipe_target_passes h path source bs passes (p # ps) =
     (let cmd = [''dd'', ''if='' @ source, ''of='' @ path, ''bs='' @ str bs, ''status=progress'']
      in seq (emit (Print (''[blue]Starting '' @ pass_desc p passes path @ '' (cmd: ''
                           @ join cmd @ '')'')))
          (\<lambda>_. seq (popen_wait h cmd)
          (\<lambda>returncode.
             if returncode \<noteq> 0
             then emit (Print (''[red]ERROR[/] '' @ pass_desc p passes path @ '' failed (code ''
                               @ str returncode @ '')''))
             else wipe_target_passes h path source bs passes ps)))"

definition wipe_target :: "host \<Rightarrow> string \<Rightarrow> string \<Rightarrow> int \<Rightarrow> int \<Rightarrow> unit prog" where
  "wipe_target h path source bs passes =
     seq (emit (Get_size path)) (\<lambda>_. wipe_target_passes h path source bs passes [1..passes])"

subsection \<open>Command lines\<close>

text \<open>
  \<open>argparse\<close>, as far as the two scripts use it. A parser is the list of option strings
  registered so far. \<open>ArgumentParser(...)\<close> is called without \<open>add_help\<close>, which
  defaults to true, so it registers \<open>-h\<close> and \<open>--help\<close> itself. \<open>add_argument\<close>
  raises \<open>ArgumentError\<close> when one of its option strings is already registered (the
  default conflict handler); a positional argument has no option string.
\<close>

type_synonym parser = "string list"

definition ArgumentParser :: parser where
  "ArgumentParser = [''-h'', ''--help'']"

definition add_argument :: "string list \<Rightarrow> parser \<Rightarrow> error + parser" where
  "add_argument flags p =
     (if list_ex (\<lambda>f. f \<in> set p) flags then Inl (ArgumentError flags) else Inr (p @ flags))"

definition and_then :: "error + 'a \<Rightarrow> ('a \<Rightarrow> error + 'b) \<Rightarrow> error + 'b" where
  "and_then r f = (case r of Inl e \<Rightarrow> Inl e | Inr x \<Rightarrow> f x)"

record wipe_argv =
  opt_zero :: bool
  opt_random :: bool
  opt_passes :: "string option"
  opt_bs :: "string option"
  opt_targets :: "string list"

record 'b wipe_args =
  args_random :: bool
  args_passes :: int
  args_bs :: 'b
  args_targets :: "string list"

text \<open>
  \<open>parser.parse_args()\<close>: \<open>-z\<close> and \<open>-r\<close> exclude each other, \<open>-p\<close> and \<open>-b\<close> go
  through their \<open>type=\<close> callback when given and take their default otherwise, and at
  least one target is required (\<open>nargs='+'\<close>). Every failure ends the process with
  status 2.
\<close>

definition parse_wipe_args ::
  "(string \<Rightarrow> error + int) \<Rightarrow> (string \<Rightarrow> error + 'b) \<Rightarrow> 'b \<Rightarrow> wipe_argv
     \<Rightarrow> error + 'b wipe_args" where
  "parse_wipe_args passes_type bs_type bs_default argv =
     (if opt_zero argv \<and> opt_random argv
      then Inl (Argparse_error ''argument -r/--random: not allowed with argument -z/--zero'')
      else
        and_then (case opt_passes argv of None \<Rightarrow> Inr 1 | Some v \<Rightarrow> passes_type v) (\<lambda>passes.
        and_then (case opt_bs argv of None \<Rightarrow> Inr bs_default | Some v \<Rightarrow> bs_type v) (\<lambda>bs.
        if opt_targets argv = []
        then Inl (Argparse_error ''the following arguments are required'')
        else Inr \<lparr> args_random = opt_random argv, args_passes = passes, args_bs = bs,
                   args_targets = opt_targets argv \<rparr>)))"

subsection \<open>secure-wipe-rich.py: \<open>main_wipe\<close>\<close>

definition main_wipe_parser :: "error + parser \<times> pyval" where
  "main_wipe_parser =
     and_then (add_argument [''-z'', ''--zero''] ArgumentParser) (\<lambda>p.
     and_then (add_argument [''-r'', ''--random''] p) (\<lambda>p.
     and_then (add_argument [''-p'', ''--passes''] p) (\<lambda>p.
     and_then (parse_size ''1M'') (\<lambda>bs_default.
     and_then (add_argument [''-b'', ''--bs''] p) (\<lambda>p.
     and_then (add_argument [] p) (\<lambda>p.
     Inr (p, bs_default)))))))"

fun main_wipe_targets ::
  "host \<Rightarrow> string \<Rightarrow> pyval \<Rightarrow> int \<Rightarrow> string list \<Rightarrow> unit prog" where
  "main_wipe_targets h source bs passes [] = ret ()"
| "main_wipe_targets h source bs passes (tgt # rest) =
     (if \<not> path_exists h tgt
      then seq (emit (Print (''[red]ERROR[/] '' @ tgt @ '' not found.'')))
               (\<lambda>_. main_wipe_targets h source bs passes rest)
      else seq (wipe_one h tgt source bs passes)
               (\<lambda>_. main_wipe_targets h source bs passes rest))"

definition main_wipe :: "host \<Rightarrow> wipe_argv \<Rightarrow> unit prog" where
  "main_wipe h argv =
     seq (lift main_wipe_parser) (\<lambda>(p, bs_default).
     seq (lift (parse_wipe_args parse_passes parse_size bs_default argv)) (\<lambda>args.
     if euid h \<noteq> 0
     then seq (emit (Print ''[red]ERROR[/] Must run as root.'')) (\<lambda>_. raise Root_required)
     else
       let source = (if args_random args then ''/dev/urandom'' else ''/dev/zero'')
       in seq (main_wipe_targets h source (args_bs args) (args_passes args) (args_targets args))
              (\<lambda>_. emit (Print ''[green]Secure wipe completed.[/]''))))"

subsection \<open>wipe-rich.py: \<open>main\<close>\<close>

text \<open>
  The parser of wipe-rich.py is built like the one above and then given
  \<open>add_argument('-h', '--help', action='help', ...)\<close> as its last argument.
\<close>

definition wipe_rich_parser :: "error + parser \<times> int" where
  "wipe_rich_parser =
     and_then (add_argument [''-z'', ''--zero''] ArgumentParser) (\<lambda>p.
     and_then (add_argument [''-r'', ''--random''] p) (\<lambda>p.
     and_then (add_argument [''-p'', ''--passes''] p) (\<lambda>p.
     and_then (parse_numeric ''1M'') (\<lambda>bs_default.
     and_then (add_argument [''-b'', ''--bs''] p) (\<lambda>p.
     and_then (add_argument [] p) (\<lambda>p.
     and_then (add_argument [''-h'', ''--help''] p) (\<lambda>p.
     Inr (p, bs_default))))))))"

fun wipe_rich_targets ::
  "host \<Rightarrow> string \<Rightarrow> int \<Rightarrow> int \<Rightarrow> string list \<Rightarrow> unit prog" where
  "wipe_rich_targets h source bs passes [] = ret ()"
| "wipe_rich_targets h source bs passes (tgt # rest) =
     (if \<not> path_exists h tgt
      then seq (emit (Print (''[red]ERROR[/] Target not found: '' @ tgt)))
               (\<lambda>_. wipe_rich_targets h source bs passes rest)
      else seq (wipe_target h tgt source bs passes)
               (\<lambda>_. wipe_rich_targets h source bs passes rest))"

definition wipe_rich_main :: "host \<Rightarrow> wipe_argv \<Rightarrow> unit prog" where
  "wipe_rich_main h argv =
     seq (lift wipe_rich_parser) (\<lambda>(p, bs_default).
     seq (lift (parse_wipe_args parse_numeric parse_numeric bs_default argv)) (\<lambda>args.
     if euid h \<noteq> 0
     then seq (emit (Print ''[red]ERROR[/] Root privileges required.'')) (\<lambda>_. raise Root_required)
     else
       let source = (if args_random args then ''/dev/urandom'' else ''/dev/zero'')
       in seq (wipe_rich_targets h source (args_bs args) (args_passes args) (args_targets args))
              (\<lambda>_. emit (Print ''[green]Secure wipe completed successfully.[/]''))))"

text \<open>The status a run ends with: 0 when the script returns, the error's status otherwise.\<close>

definition status :: "(error + unit) \<times> event list \<Rightarrow> int" where
  "status r = (case fst r of Inl e \<Rightarrow> exit_status e | Inr _ \<Rightarrow> 0)"

section \<open>dcfldd-wrapper\<close>








section \<open>Observations on traces, and example runs\<close>

text \<open>
  \<open>passes_started\<close> counts the child processes a run has started. \<open>sequential\<close>
  follows a trace with one bit, whether a child is running: a child may only start
  when none is running, \<open>wait\<close> may only return for a running child, and at the end
  none is left running.
\<close>

definition passes_started :: "(error + unit) \<times> event list \<Rightarrow> nat" where
  "passes_started r = length (filter is_Popen (snd r))"

fun step :: "bool option \<Rightarrow> event \<Rightarrow> bool option" where
  "step None _ = None"
| "step (Some running) (Popen _) = (if running then None else Some True)"
| "step (Some running) (Wait _) = (if running then Some False else None)"
| "step (Some running) _ = Some running"

definition sequential :: "event list \<Rightarrow> bool" where
  "sequential t = (foldl step (Some False) t = Some False)"

text \<open>
  Both scripts run the same loop up to what they print. \<open>pass_loop h f\<close> says that \<open>f\<close>
  is such a loop: on no pass left it returns; otherwise it prints, starts a child and
  waits for it, and then either reports the failure and returns or goes on with the
  remaining passes.
\<close>

definition pass_loop :: "host \<Rightarrow> (int list \<Rightarrow> unit prog) \<Rightarrow> bool" where
  "pass_loop h f \<longleftrightarrow>
     (\<forall>t. f [] t = (Inr (), t)) \<and>
     (\<forall>p ps t. \<exists>pre cmd e. set pre \<subseteq> range Print \<and>
        f (p # ps) t =
          (if dd_status h (length (filter is_Popen t)) \<noteq> 0
           then (Inr (), t @ pre @ [Popen cmd, Wait (dd_status h (length (filter is_Popen t))),
                                   Print e])
           else f ps (t @ pre @ [Popen cmd, Wait 0])))"

text \<open>
  A workstation with an internal disk and a USB stick, the user being root; the same
  machine where the second \<open>dd\<close> process fails; and command lines for them.
\<close>

definition internal_disk :: udev_device where
  "internal_disk =
     \<lparr> device_node = ''/dev/sda'', ID_TYPE = Some ''disk'', ID_MODEL = Some ''SSD_860'',
       attr_size = Some 976773168, attr_removable = Some 0, ID_BUS = Some ''ata'' \<rparr>"

definition usb_stick :: udev_device where
  "usb_stick =
     \<lparr> device_node = ''/dev/sdX'', ID_TYPE = Some ''disk'', ID_MODEL = Some ''Flash_Disk'',
       attr_size = Some 31250000, attr_removable = Some 1, ID_BUS = Some ''usb'' \<rparr>"

definition on_workstation :: "string \<Rightarrow> bool" where
  "on_workstation p = (p = ''/dev/sda'' \<or> p = ''/dev/sdX'' \<or> p = ''sdX'')"

definition always :: "string list \<Rightarrow> bool" where
  "always cmd = True"

definition no_blkid :: "string \<Rightarrow> string option" where
  "no_blkid device = None"

definition all_passes_succeed :: "nat \<Rightarrow> int" where
  "all_passes_succeed n = 0"

definition second_pass_fails :: "nat \<Rightarrow> int" where
  "second_pass_fails n = (if n = 1 then 1 else 0)"

definition workstation :: host where
  "workstation =
     \<lparr> euid = 0, path_exists = on_workstation, CTX = [internal_disk, usb_stick],
       succeeds = always, blkid = no_blkid, dd_status = all_passes_succeed \<rparr>"

definition flaky_workstation :: host where
  "flaky_workstation = workstation \<lparr> dd_status := second_pass_fails \<rparr>"

definition format_sda :: cli where
  "format_sda =
     \<lparr> cli_list = False, cli_device = Some ''/dev/sda'', cli_format = Some ''fat32'',
       cli_label = None, cli_repair = False, cli_scan_badblocks = False, cli_force = False \<rparr>"






section \<open>Properties\<close>

subsection \<open>Running a program\<close>

lemma seq_ret [simp]: "seq (ret x) f t = f x t"
  by (simp add: seq_def ret_def)

lemma seq_raise [simp]: "seq (raise e) f t = (Inl e, t)"
  by (simp add: seq_def raise_def)

lemma seq_emit [simp]: "seq (emit ev) f t = f () (t @ [ev])"
  by (simp add: seq_def emit_def)

lemma lift_Inl [simp]: "lift (Inl e) = raise e"
  by (simp add: lift_def)

lemma lift_Inr [simp]: "lift (Inr x) = ret x"
  by (simp add: lift_def)



subsection \<open>The filesystem registry\<close>

lemma FS_TABLE_Some:
  "FS_TABLE k = Some b \<longleftrightarrow>
     (k = ''fat32'' \<and> b = FAT32Backend) \<or> (k = ''ext4'' \<and> b = EXT4Backend)
     \<or> (k = ''ntfs'' \<and> b = NTFSBackend)"
  by (auto simp: FS_TABLE_def FAT32Backend_def EXT4Backend_def NTFSBackend_def)

lemma FS_TABLE_None: "FS_TABLE k = None \<longleftrightarrow> k \<notin> {''fat32'', ''ext4'', ''ntfs''}"
  by (auto simp: FS_TABLE_def FAT32Backend_def EXT4Backend_def NTFSBackend_def)

lemma fs_backend_Inr: "fs_backend fs = Inr b \<longleftrightarrow> FS_TABLE (lower fs) = Some b"
  by (simp add: fs_backend_def split: option.splits)

lemma fs_backend_isl: "isl (fs_backend fs) \<longleftrightarrow> lower fs \<notin> {''fat32'', ''ext4'', ''ntfs''}"
  using FS_TABLE_None [of "lower fs"]
  by (cases "FS_TABLE (lower fs)") (simp_all add: fs_backend_def)

text \<open>
  C6. \<open>fs_backend\<close> looks the kind up in lower case: \<open>FAT32\<close> and \<open>fat32\<close> resolve
  alike, two kinds that agree in lower case resolve to the same back-end or both fail,
  and the lookup fails, with the "Unsupported filesystem" exit naming the kind as given,
  exactly when the kind in lower case is none of \<open>fat32\<close>, \<open>ext4\<close>, \<open>ntfs\<close>.
\<close>

theorem fs_backend_case_insensitive:
  "fs_backend ''FAT32'' = fs_backend ''fat32''
   \<and> (lower a = lower b \<longrightarrow> (fs_backend a = Inr x \<longleftrightarrow> fs_backend b = Inr x))
   \<and> (lower a = lower b \<longrightarrow> (isl (fs_backend a) \<longleftrightarrow> isl (fs_backend b)))
   \<and> (isl (fs_backend fs) \<longleftrightarrow> lower fs \<notin> {''fat32'', ''ext4'', ''ntfs''})
   \<and> (isl (fs_backend fs) \<longrightarrow> fs_backend fs = Inl (Unsupported_filesystem fs))"
proof -
  have 1: "fs_backend ''FAT32'' = fs_backend ''fat32''"
    by code_simp
  have 2: "lower a = lower b \<longrightarrow> (fs_backend a = Inr x \<longleftrightarrow> fs_backend b = Inr x)"
    by (simp add: fs_backend_Inr)
  have 3: "lower a = lower b \<longrightarrow> (isl (fs_backend a) \<longleftrightarrow> isl (fs_backend b))"
    by (simp add: fs_backend_isl)
  have 4: "isl (fs_backend fs) \<longrightarrow> fs_backend fs = Inl (Unsupported_filesystem fs)"
    by (simp add: fs_backend_def split: option.splits)
  from 1 2 3 4 fs_backend_isl [of fs] show ?thesis
    by blast
qed

theorem fs_backend_case_insensitive_witness:
  "lower ''Ext4'' = lower ''EXT4'' \<and> fs_backend ''Ext4'' = Inr EXT4Backend
   \<and> fs_backend ''EXT4'' = Inr EXT4Backend
   \<and> isl (fs_backend ''xfs'') \<and> fs_backend ''xfs'' = Inl (Unsupported_filesystem ''xfs'')"
proof -
  have a: "lower ''Ext4'' = lower ''EXT4''"
    by code_simp
  have b: "fs_backend ''Ext4'' = Inr EXT4Backend"
    by code_simp
  have c: "lower ''xfs'' \<notin> {''fat32'', ''ext4'', ''ntfs''}"
    by code_simp
  show ?thesis
    using a b c fs_backend_case_insensitive [of "''Ext4''" "''EXT4''" EXT4Backend "''xfs''"]
    by simp
qed

subsection \<open>The safety check\<close>

lemma parse_args_Inr: "parse_args argv = Inr cli \<Longrightarrow> cli = argv"
  by (auto simp: parse_args_def split: option.splits)

lemma main_after_parse:
  assumes "parse_args argv = Inr argv" "is_root h" "\<not> cli_list argv"
    and "cli_device argv = Some device" "device \<noteq> []"
  shows "main h argv [] =
     seq (lift (sanity_check h device (cli_force argv))) (\<lambda>_.
       (case cli_format argv of
          Some fs \<Rightarrow>
            seq (lift (fs_backend fs)) (\<lambda>backend.
            seq (create_single_partition h device fs) (\<lambda>target_part.
            seq (format h backend target_part (cli_label argv)) (\<lambda>_.
            emit (Print (''Formatted '' @ target_part @ '' as '' @ upper fs @ ''.'')))))
        | None \<Rightarrow>
            if cli_repair argv then
              seq (blkid_TYPE h device) (\<lambda>blkid_out.
              seq (lift (fs_backend blkid_out)) (\<lambda>backend.
              seq (repair h backend device) (\<lambda>_.
              emit (Print (''Repair finished on '' @ device @ ''.'')))))
            else if cli_scan_badblocks argv then scan_badblocks h device
            else emit (Print ''Nothing to do. See --help.''))) []"
  using assms by (simp add: main_def)

lemma main_sanity_failure:
  assumes "parse_args argv = Inr argv" "is_root h" "\<not> cli_list argv"
    and "cli_device argv = Some device" "device \<noteq> []"
    and "sanity_check h device (cli_force argv) = Inl e"
  shows "main h argv [] = (Inl e, [])"
  using assms by (simp add: main_after_parse)

lemma sanity_check_cases:
  "sanity_check h device force =
     (if \<not> path_exists h device then Inl (Device_does_not_exist device)
      else if \<not> startswith device ''/dev/'' then Inl Not_a_dev_path
      else if \<not> list_ex (\<lambda>d. name d = device \<and> removable d) (list_block_devices (CTX h)) \<and> \<not> force
           then Inl (Not_removable device) else Inr ())"
  by (simp add: sanity_check_def Let_def)

lemma sanity_check_status: "sanity_check h device force = Inl e \<Longrightarrow> exit_status e = 1"
  by (auto simp: sanity_check_cases split: if_splits)

lemma inventory_node:
  assumes "nodes_present h" and "d \<in> set (list_block_devices (CTX h))"
  shows "path_exists h (name d) \<and> startswith (name d) ''/dev/''"
proof -
  from assms(2) obtain dev where dev: "dev \<in> set (CTX h)" "d = summary dev"
    by (auto simp: list_block_devices_def)
  from assms(1) dev(1) have "path_exists h (device_node dev) \<and> startswith (device_node dev) ''/dev/''"
    by (simp add: nodes_present_def list_all_iff)
  with dev(2) show ?thesis
    by (simp add: summary_def)
qed

lemma not_removable_lookup:
  assumes "d \<in> set ds" "\<not> removable d" "distinct (map name ds)"
  shows "\<not> list_ex (\<lambda>x. name x = name d \<and> removable x) ds"
proof
  assume "list_ex (\<lambda>x. name x = name d \<and> removable x) ds"
  then obtain x where x: "x \<in> set ds" "name x = name d" "removable x"
    by (auto simp: list_ex_iff)
  from assms(3) have "inj_on name (set ds)" by (simp add: distinct_map)
  with x(1,2) assms(1) have "x = d" by (auto dest: inj_onD)
  with x(3) assms(2) show False by simp
qed

text \<open>
  C1. A device is non-removable for \<open>sanity_check\<close> when no entry of the inventory
  carries its path with the removable flag set; in an inventory that lists each node
  once, that is an entry whose flag is false. For such a device a request without
  \<open>--force\<close> fails with one of the three exits of \<open>sanity_check\<close>, and \<open>main\<close> then
  stops with status 1 and an empty trace: no external command has run. With \<open>--force\<close>
  the check succeeds for every device of the inventory, removable or not, on a host
  whose device nodes are present.
\<close>

theorem sanity_check_removable_gate:
  "(\<not> list_ex (\<lambda>x. name x = device \<and> removable x) (list_block_devices (CTX h))
      \<longrightarrow> sanity_check h device False
            \<in> {Inl (Device_does_not_exist device), Inl Not_a_dev_path, Inl (Not_removable device)})
   \<and> (d \<in> set (list_block_devices (CTX h)) \<and> \<not> removable d
        \<and> distinct (map name (list_block_devices (CTX h)))
      \<longrightarrow> isl (sanity_check h (name d) False))
   \<and> (nodes_present h \<and> d \<in> set (list_block_devices (CTX h))
      \<longrightarrow> sanity_check h (name d) True = Inr ())
   \<and> (parse_args argv = Inr argv \<and> is_root h \<and> \<not> cli_list argv
        \<and> cli_device argv = Some device \<and> device \<noteq> [] \<and> \<not> cli_force argv
        \<and> \<not> list_ex (\<lambda>x. name x = device \<and> removable x) (list_block_devices (CTX h))
      \<longrightarrow> (\<exists>e. main h argv [] = (Inl e, []) \<and> exit_status e = 1))"
proof -
  have 1: "\<not> list_ex (\<lambda>x. name x = device \<and> removable x) (list_block_devices (CTX h))
      \<longrightarrow> sanity_check h device False
            \<in> {Inl (Device_does_not_exist device), Inl Not_a_dev_path, Inl (Not_removable device)}"
    by (simp add: sanity_check_cases)
  have 2: "d \<in> set (list_block_devices (CTX h)) \<and> \<not> removable d
        \<and> distinct (map name (list_block_devices (CTX h)))
      \<longrightarrow> isl (sanity_check h (name d) False)"
    using not_removable_lookup [of d "list_block_devices (CTX h)"]
    by (auto simp: sanity_check_cases)
  have 3: "nodes_present h \<and> d \<in> set (list_block_devices (CTX h))
      \<longrightarrow> sanity_check h (name d) True = Inr ()"
    using inventory_node [of h d]
    by (simp add: sanity_check_cases)
  have 4: "parse_args argv = Inr argv \<and> is_root h \<and> \<not> cli_list argv
        \<and> cli_device argv = Some device \<and> device \<noteq> [] \<and> \<not> cli_force argv
        \<and> \<not> list_ex (\<lambda>x. name x = device \<and> removable x) (list_block_devices (CTX h))
      \<longrightarrow> (\<exists>e. main h argv [] = (Inl e, []) \<and> exit_status e = 1)"
  proof (intro impI, elim conjE)
    assume a: "parse_args argv = Inr argv" "is_root h" "\<not> cli_list argv"
      "cli_device argv = Some device" "device \<noteq> []" "\<not> cli_force argv"
      "\<not> list_ex (\<lambda>x. name x = device \<and> removable x) (list_block_devices (CTX h))"
    from a(6,7) have "isl (sanity_check h device (cli_force argv))"
      by (simp add: sanity_check_cases)
    then obtain e where e: "sanity_check h device (cli_force argv) = Inl e"
      by (auto simp: isl_def)
    note e = e sanity_check_status [OF e]
    from main_sanity_failure [OF a(1-5) e(1)] e(2) show "\<exists>e. main h argv [] = (Inl e, []) \<and> exit_status e = 1"
      by blast
  qed
  from 1 2 3 4 show ?thesis by blast
qed

theorem sanity_check_removable_gate_witness:
  "summary internal_disk \<in> set (list_block_devices (CTX workstation))
   \<and> \<not> removable (summary internal_disk)
   \<and> nodes_present workstation
   \<and> isl (sanity_check workstation ''/dev/sda'' False)
   \<and> sanity_check workstation ''/dev/sda'' True = Inr ()
   \<and> (\<exists>e. main workstation format_sda [] = (Inl e, []) \<and> exit_status e = 1)"
proof -
  have 1: "\<not> list_ex (\<lambda>x. name x = ''/dev/sda'' \<and> removable x)
                (list_block_devices (CTX workstation))"
    by code_simp
  have 2: "summary internal_disk \<in> set (list_block_devices (CTX workstation))"
    by code_simp
  have 3: "\<not> removable (summary internal_disk)"
    by code_simp
  have 4: "distinct (map name (list_block_devices (CTX workstation)))"
    by code_simp
  have 5: "name (summary internal_disk) = ''/dev/sda''"
    by code_simp
  have 6: "nodes_present workstation"
    by code_simp
  have 7: "path_exists workstation ''/dev/sda'' \<and> startswith ''/dev/sda'' ''/dev/''"
    by code_simp
  have 8: "parse_args format_sda = Inr format_sda"
    by code_simp
  have 9: "is_root workstation"
    by code_simp
  have 10: "\<not> cli_list format_sda \<and> cli_device format_sda = Some ''/dev/sda''
            \<and> \<not> cli_force format_sda"
    by code_simp
  show ?thesis
    using sanity_check_removable_gate
            [where device = "''/dev/sda''" and h = workstation
               and d = "summary internal_disk" and argv = format_sda]
          1 2 3 4 5 6 7 8 9 10
    by simp
qed

text \<open>
  C9. \<open>--force\<close> leaves the first two checks in place: a path that does not exist, or
  that does not start with \<open>/dev/\<close>, is refused whatever \<open>force\<close> is, and \<open>main\<close>
  stops with status 1 before any command runs. With \<open>force\<close> the check succeeds exactly
  when those two checks pass, and where the outcomes with and without \<open>force\<close> differ,
  the one without is the removability refusal.
\<close>

theorem sanity_check_force_keeps_path_checks:
  "(\<not> path_exists h device \<longrightarrow> sanity_check h device force = Inl (Device_does_not_exist device))
   \<and> (path_exists h device \<and> \<not> startswith device ''/dev/''
        \<longrightarrow> sanity_check h device force = Inl Not_a_dev_path)
   \<and> (sanity_check h device True = Inr () \<longleftrightarrow> path_exists h device \<and> startswith device ''/dev/'')
   \<and> (sanity_check h device False \<noteq> sanity_check h device True
        \<longrightarrow> sanity_check h device False = Inl (Not_removable device)
            \<and> sanity_check h device True = Inr ())
   \<and> (parse_args argv = Inr argv \<and> is_root h \<and> \<not> cli_list argv
        \<and> cli_device argv = Some device \<and> device \<noteq> []
        \<and> (\<not> path_exists h device \<or> \<not> startswith device ''/dev/'')
      \<longrightarrow> (\<exists>e. main h argv [] = (Inl e, []) \<and> exit_status e = 1))"
proof -
  have 1: "\<not> path_exists h device \<longrightarrow> sanity_check h device force = Inl (Device_does_not_exist device)"
    by (simp add: sanity_check_cases)
  have 2: "path_exists h device \<and> \<not> startswith device ''/dev/''
        \<longrightarrow> sanity_check h device force = Inl Not_a_dev_path"
    by (simp add: sanity_check_cases)
  have 3: "sanity_check h device True = Inr () \<longleftrightarrow> path_exists h device \<and> startswith device ''/dev/''"
    by (simp add: sanity_check_cases)
  have 4: "sanity_check h device False \<noteq> sanity_check h device True
        \<longrightarrow> sanity_check h device False = Inl (Not_removable device)
            \<and> sanity_check h device True = Inr ()"
    by (simp add: sanity_check_cases)
  have 5: "parse_args argv = Inr argv \<and> is_root h \<and> \<not> cli_list argv
        \<and> cli_device argv = Some device \<and> device \<noteq> []
        \<and> (\<not> path_exists h device \<or> \<not> startswith device ''/dev/'')
      \<longrightarrow> (\<exists>e. main h argv [] = (Inl e, []) \<and> exit_status e = 1)"
  proof (intro impI, elim conjE)
    assume a: "parse_args argv = Inr argv" "is_root h" "\<not> cli_list argv"
      "cli_device argv = Some device" "device \<noteq> []"
      "\<not> path_exists h device \<or> \<not> startswith device ''/dev/''"
    from a(6) have "isl (sanity_check h device (cli_force argv))"
      by (auto simp: sanity_check_cases)
    then obtain e where e: "sanity_check h device (cli_force argv) = Inl e"
      by (auto simp: isl_def)
    note e = e sanity_check_status [OF e]
    from main_sanity_failure [OF a(1-5) e(1)] e(2) show "\<exists>e. main h argv [] = (Inl e, []) \<and> exit_status e = 1"
      by blast
  qed
  from 1 2 3 4 5 show ?thesis by blast
qed

theorem sanity_check_force_keeps_path_checks_witness:
  "\<not> path_exists workstation ''/dev/sdz''
   \<and> sanity_check workstation ''/dev/sdz'' True = Inl (Device_does_not_exist ''/dev/sdz'')
   \<and> path_exists workstation ''sdX'' \<and> \<not> startswith ''sdX'' ''/dev/''
   \<and> sanity_check workstation ''sdX'' True = Inl Not_a_dev_path
   \<and> sanity_check workstation ''/dev/sda'' False \<noteq> sanity_check workstation ''/dev/sda'' True
   \<and> sanity_check workstation ''/dev/sda'' False = Inl (Not_removable ''/dev/sda'')
   \<and> (\<exists>e. main workstation (format_sda \<lparr> cli_device := Some ''sdX'', cli_force := True \<rparr>) []
             = (Inl e, []) \<and> exit_status e = 1)"
proof -
  have 1: "\<not> path_exists workstation ''/dev/sdz''"
    by code_simp
  have 2: "path_exists workstation ''sdX'' \<and> \<not> startswith ''sdX'' ''/dev/''"
    by code_simp
  have 3: "sanity_check workstation ''/dev/sda'' False \<noteq> sanity_check workstation ''/dev/sda'' True"
    by code_simp
  have 4: "parse_args (format_sda \<lparr> cli_device := Some ''sdX'', cli_force := True \<rparr>)
             = Inr (format_sda \<lparr> cli_device := Some ''sdX'', cli_force := True \<rparr>)"
    by code_simp
  have 5: "is_root workstation"
    by code_simp
  have 6: "\<not> cli_list (format_sda \<lparr> cli_device := Some ''sdX'', cli_force := True \<rparr>)
           \<and> cli_device (format_sda \<lparr> cli_device := Some ''sdX'', cli_force := True \<rparr>)
               = Some ''sdX''"
    by code_simp
  show ?thesis
    using sanity_check_force_keeps_path_checks
            [where h = workstation and device = "''/dev/sdz''" and force = True]
          sanity_check_force_keeps_path_checks
            [where h = workstation and device = "''sdX''" and force = True
               and argv = "format_sda \<lparr> cli_device := Some ''sdX'', cli_force := True \<rparr>"]
          sanity_check_force_keeps_path_checks
            [where h = workstation and device = "''/dev/sda''"]
          1 2 3 4 5 6
    by simp
qed

subsection \<open>Formatting\<close>




subsection \<open>The pass loop\<close>

lemma seq_popen_wait:
  "seq (popen_wait h cmd) f t =
     f (dd_status h (length (filter is_Popen t)))
       (t @ [Popen cmd, Wait (dd_status h (length (filter is_Popen t)))])"
  by (simp add: seq_def popen_wait_def Let_def)

lemma emit_run: "emit ev t = (Inr (), t @ [ev])"
  by (simp add: emit_def)

lemma ret_run: "ret x t = (Inr x, t)"
  by (simp add: ret_def)

lemma sequential_Nil [simp]: "sequential []"
  by (simp add: sequential_def)

lemma sequential_append: "sequential t \<Longrightarrow> sequential u \<Longrightarrow> sequential (t @ u)"
  by (simp add: sequential_def)

lemma foldl_step_Prints: "set pre \<subseteq> range Print \<Longrightarrow> foldl step (Some r) pre = Some r"
  by (induction pre) auto

lemma no_Popen_in_Prints: "set pre \<subseteq> range Print \<Longrightarrow> filter is_Popen pre = []"
  by (induction pre) auto

lemma sequential_pass:
  "set pre \<subseteq> range Print \<Longrightarrow> sequential (pre @ [Popen cmd, Wait rc])"
  by (simp add: sequential_def foldl_step_Prints)

lemma sequential_failed_pass:
  "set pre \<subseteq> range Print \<Longrightarrow> sequential (pre @ [Popen cmd, Wait rc, Print e])"
  by (simp add: sequential_def foldl_step_Prints)

lemma pass_loop_Nil: "pass_loop h f \<Longrightarrow> f [] t = (Inr (), t)"
  by (simp add: pass_loop_def)

lemma pass_loop_Cons:
  assumes "pass_loop h f"
  obtains pre cmd e where "set pre \<subseteq> range Print"
    and "f (p # ps) t =
          (if dd_status h (length (filter is_Popen t)) \<noteq> 0
           then (Inr (), t @ pre @ [Popen cmd, Wait (dd_status h (length (filter is_Popen t))),
                                   Print e])
           else f ps (t @ pre @ [Popen cmd, Wait 0]))"
  using assms unfolding pass_loop_def by blast

lemma wipe_one_pass_loop: "pass_loop h (wipe_one_passes h path source bs passes)"
  unfolding pass_loop_def
proof (intro conjI allI)
  fix t
  show "wipe_one_passes h path source bs passes [] t = (Inr (), t)"
    by (simp add: ret_run)
next
  fix p ps t
  show "\<exists>pre cmd e. set pre \<subseteq> range Print \<and>
        wipe_one_passes h path source bs passes (p # ps) t =
          (if dd_status h (length (filter is_Popen t)) \<noteq> 0
           then (Inr (), t @ pre @ [Popen cmd, Wait (dd_status h (length (filter is_Popen t))),
                                   Print e])
           else wipe_one_passes h path source bs passes ps (t @ pre @ [Popen cmd, Wait 0]))"
    by (rule exI [of _ "[]"],
        rule exI [of _ "[''dd'', ''if='' @ source, ''of='' @ path, ''bs='' @ str_pyval bs,
                         ''status=progress'']"],
        rule exI [of _ "''[red]ERROR[/] pass '' @ str p @ '' failed (code ''
                         @ str (dd_status h (length (filter is_Popen t))) @ '')''"])
       (simp add: seq_popen_wait emit_run)
qed

lemma wipe_target_pass_loop: "pass_loop h (wipe_target_passes h path source bs passes)"
  unfolding pass_loop_def
proof (intro conjI allI)
  fix t
  show "wipe_target_passes h path source bs passes [] t = (Inr (), t)"
    by (simp add: ret_run)
next
  fix p ps t
  let ?cmd = "[''dd'', ''if='' @ source, ''of='' @ path, ''bs='' @ str bs, ''status=progress'']"
  let ?pre = "[Print (''[blue]Starting '' @ pass_desc p passes path @ '' (cmd: ''
                      @ join ?cmd @ '')'')]"
  show "\<exists>pre cmd e. set pre \<subseteq> range Print \<and>
        wipe_target_passes h path source bs passes (p # ps) t =
          (if dd_status h (length (filter is_Popen t)) \<noteq> 0
           then (Inr (), t @ pre @ [Popen cmd, Wait (dd_status h (length (filter is_Popen t))),
                                   Print e])
           else wipe_target_passes h path source bs passes ps (t @ pre @ [Popen cmd, Wait 0]))"
    by (rule exI [of _ ?pre], rule exI [of _ ?cmd],
        rule exI [of _ "''[red]ERROR[/] '' @ pass_desc p passes path @ '' failed (code ''
                         @ str (dd_status h (length (filter is_Popen t))) @ '')''"])
       (simp add: seq_popen_wait emit_run Let_def)
qed

lemma pass_loop_returns: "pass_loop h f \<Longrightarrow> fst (f ps t) = Inr ()"
proof (induction ps arbitrary: t)
  case Nil
  then show ?case by (simp add: pass_loop_Nil)
next
  case (Cons p ps)
  from Cons.prems obtain pre cmd e where
    "f (p # ps) t =
      (if dd_status h (length (filter is_Popen t)) \<noteq> 0
       then (Inr (), t @ pre @ [Popen cmd, Wait (dd_status h (length (filter is_Popen t))),
                               Print e])
       else f ps (t @ pre @ [Popen cmd, Wait 0]))"
    by (rule pass_loop_Cons)
  with Cons.IH [OF Cons.prems] show ?case by simp
qed

lemma pass_loop_extends: "pass_loop h f \<Longrightarrow> \<exists>u. snd (f ps t) = t @ u"
proof (induction ps arbitrary: t)
  case Nil
  then show ?case by (simp add: pass_loop_Nil)
next
  case (Cons p ps)
  from Cons.prems obtain pre cmd e where step:
    "f (p # ps) t =
      (if dd_status h (length (filter is_Popen t)) \<noteq> 0
       then (Inr (), t @ pre @ [Popen cmd, Wait (dd_status h (length (filter is_Popen t))),
                               Print e])
       else f ps (t @ pre @ [Popen cmd, Wait 0]))"
    by (rule pass_loop_Cons)
  from Cons.IH [OF Cons.prems, of "t @ pre @ [Popen cmd, Wait 0]"]
  obtain u where "snd (f ps (t @ pre @ [Popen cmd, Wait 0])) = (t @ pre @ [Popen cmd, Wait 0]) @ u"
    by blast
  with step show ?case by auto
qed

lemma pass_loop_sequential:
  "pass_loop h f \<Longrightarrow> sequential t \<Longrightarrow> sequential (snd (f ps t))"
proof (induction ps arbitrary: t)
  case Nil
  then show ?case by (simp add: pass_loop_Nil)
next
  case (Cons p ps)
  from Cons.prems(1) obtain pre cmd e where pre: "set pre \<subseteq> range Print" and step:
    "f (p # ps) t =
      (if dd_status h (length (filter is_Popen t)) \<noteq> 0
       then (Inr (), t @ pre @ [Popen cmd, Wait (dd_status h (length (filter is_Popen t))),
                               Print e])
       else f ps (t @ pre @ [Popen cmd, Wait 0]))"
    by (rule pass_loop_Cons)
  show ?case
  proof (cases "dd_status h (length (filter is_Popen t)) = 0")
    case True
    from sequential_append [OF Cons.prems(2) sequential_pass [OF pre]]
    have "sequential (t @ pre @ [Popen cmd, Wait 0])" .
    from Cons.IH [OF Cons.prems(1) this] True step show ?thesis by simp
  next
    case False
    from sequential_append [OF Cons.prems(2) sequential_failed_pass [OF pre]] False step
    show ?thesis by simp
  qed
qed

lemma pass_loop_all_succeed:
  "pass_loop h f \<Longrightarrow>
   \<forall>i < length ps. dd_status h (length (filter is_Popen t) + i) = 0 \<Longrightarrow>
   length (filter is_Popen (snd (f ps t))) = length (filter is_Popen t) + length ps"
proof (induction ps arbitrary: t)
  case Nil
  then show ?case by (simp add: pass_loop_Nil)
next
  case (Cons p ps)
  let ?n = "length (filter is_Popen t)"
  from Cons.prems(1) obtain pre cmd e where pre: "set pre \<subseteq> range Print" and step:
    "f (p # ps) t =
      (if dd_status h ?n \<noteq> 0
       then (Inr (), t @ pre @ [Popen cmd, Wait (dd_status h ?n), Print e])
       else f ps (t @ pre @ [Popen cmd, Wait 0]))"
    by (rule pass_loop_Cons)
  from Cons.prems(2) have ok: "dd_status h ?n = 0" by force
  let ?t = "t @ pre @ [Popen cmd, Wait 0]"
  have n: "length (filter is_Popen ?t) = Suc ?n"
    by (simp add: no_Popen_in_Prints [OF pre])
  have "\<forall>i < length ps. dd_status h (length (filter is_Popen ?t) + i) = 0"
  proof (intro allI impI)
    fix i assume "i < length ps"
    then have "Suc i < length (p # ps)" by simp
    with Cons.prems(2) have "dd_status h (?n + Suc i) = 0" by blast
    then show "dd_status h (length (filter is_Popen ?t) + i) = 0" by (simp only: n) simp
  qed
  from Cons.IH [OF Cons.prems(1) this] have
    "length (filter is_Popen (snd (f ps ?t))) = length (filter is_Popen ?t) + length ps" .
  with step ok n show ?case by simp
qed

lemma pass_loop_first_failure:
  "pass_loop h f \<Longrightarrow> k < length ps \<Longrightarrow>
   \<forall>i < k. dd_status h (length (filter is_Popen t) + i) = 0 \<Longrightarrow>
   dd_status h (length (filter is_Popen t) + k) \<noteq> 0 \<Longrightarrow>
   length (filter is_Popen (snd (f ps t))) = length (filter is_Popen t) + Suc k"
proof (induction ps arbitrary: t k)
  case Nil
  then show ?case by simp
next
  case (Cons p ps)
  let ?n = "length (filter is_Popen t)"
  from Cons.prems(1) obtain pre cmd e where pre: "set pre \<subseteq> range Print" and step:
    "f (p # ps) t =
      (if dd_status h ?n \<noteq> 0
       then (Inr (), t @ pre @ [Popen cmd, Wait (dd_status h ?n), Print e])
       else f ps (t @ pre @ [Popen cmd, Wait 0]))"
    by (rule pass_loop_Cons)
  show ?case
  proof (cases k)
    case 0
    with Cons.prems(4) step show ?thesis
      by (simp add: no_Popen_in_Prints [OF pre])
  next
    case (Suc j)
    from Cons.prems(3) Suc have ok: "dd_status h ?n = 0" by force
    let ?t = "t @ pre @ [Popen cmd, Wait 0]"
    have n: "length (filter is_Popen ?t) = Suc ?n"
      by (simp add: no_Popen_in_Prints [OF pre])
    have 1: "j < length ps" using Cons.prems(2) Suc by simp
    have 2: "\<forall>i < j. dd_status h (length (filter is_Popen ?t) + i) = 0"
    proof (intro allI impI)
      fix i assume "i < j"
      then have "Suc i < k" using Suc by simp
      with Cons.prems(3) have "dd_status h (?n + Suc i) = 0" by blast
      then show "dd_status h (length (filter is_Popen ?t) + i) = 0" by (simp only: n) simp
    qed
    have 3: "dd_status h (length (filter is_Popen ?t) + j) \<noteq> 0"
      using Cons.prems(4) Suc by (simp only: n) simp
    from Cons.IH [OF Cons.prems(1) 1 2 3] have
      "length (filter is_Popen (snd (f ps ?t))) = length (filter is_Popen ?t) + Suc j" .
    with step ok n Suc show ?thesis by simp
  qed
qed

lemma length_upto_1: "length [1..N] = nat N"
  by simp

lemma wipe_one_unfold:
  "wipe_one h path source bs N t = wipe_one_passes h path source bs N [1..N] (t @ [Get_size path])"
  by (simp add: wipe_one_def)

lemma wipe_target_unfold:
  "wipe_target h path source bs N t =
     wipe_target_passes h path source bs N [1..N] (t @ [Get_size path])"
  by (simp add: wipe_target_def)

lemma sequential_Get_size: "sequential [Get_size p]"
  by (simp add: sequential_def)

text \<open>
  C4. A secure erase of one target with \<open>passes = N\<close>, in \<open>wipe_target\<close> and in
  \<open>wipe_one\<close>: when the first \<open>N\<close> child processes all exit with status 0, exactly
  \<open>N\<close> are started; when the one numbered \<open>k\<close> from 0, that is pass \<open>k + 1\<close>, is the
  first to exit with another status, exactly \<open>k + 1\<close> are started and none after it;
  and in the trace no child starts while another is running: every \<open>Popen\<close> is
  followed by the return of its \<open>wait\<close> before the next.
\<close>

theorem secure_erase_passes_sequential:
  "((\<forall>i < nat N. dd_status h i = 0) \<longrightarrow>
       passes_started (wipe_target h path source bs N []) = nat N
     \<and> passes_started (wipe_one h path source bs' N []) = nat N)
   \<and> (k < nat N \<and> (\<forall>i < k. dd_status h i = 0) \<and> dd_status h k \<noteq> 0 \<longrightarrow>
       passes_started (wipe_target h path source bs N []) = Suc k
     \<and> passes_started (wipe_one h path source bs' N []) = Suc k)
   \<and> sequential (snd (wipe_target h path source bs N []))
   \<and> sequential (snd (wipe_one h path source bs' N []))"
proof -
  let ?t = "[Get_size path]"
  have n: "length (filter is_Popen ?t) = 0"
    by simp
  have 1: "passes_started (wipe_target h path source bs N []) = nat N
         \<and> passes_started (wipe_one h path source bs' N []) = nat N"
    if "\<forall>i < nat N. dd_status h i = 0"
  proof -
    from that have "\<forall>i < length [1..N]. dd_status h (length (filter is_Popen ?t) + i) = 0"
      by simp
    from pass_loop_all_succeed [OF wipe_target_pass_loop this]
         pass_loop_all_succeed [OF wipe_one_pass_loop this]
    show ?thesis
      by (simp add: passes_started_def wipe_target_unfold wipe_one_unfold)
  qed
  have 2: "passes_started (wipe_target h path source bs N []) = Suc k
         \<and> passes_started (wipe_one h path source bs' N []) = Suc k"
    if "k < nat N" "\<forall>i < k. dd_status h i = 0" "dd_status h k \<noteq> 0"
  proof -
    from that have a: "k < length [1..N]"
      and b: "\<forall>i < k. dd_status h (length (filter is_Popen ?t) + i) = 0"
      and c: "dd_status h (length (filter is_Popen ?t) + k) \<noteq> 0"
      by simp_all
    from pass_loop_first_failure [OF wipe_target_pass_loop a b c]
         pass_loop_first_failure [OF wipe_one_pass_loop a b c]
    show ?thesis
      by (simp add: passes_started_def wipe_target_unfold wipe_one_unfold)
  qed
  have 3: "sequential (snd (wipe_target h path source bs N []))"
    using pass_loop_sequential [OF wipe_target_pass_loop sequential_Get_size]
    by (simp add: wipe_target_unfold)
  have 4: "sequential (snd (wipe_one h path source bs' N []))"
    using pass_loop_sequential [OF wipe_one_pass_loop sequential_Get_size]
    by (simp add: wipe_one_unfold)
  from 1 2 3 4 show ?thesis
    by blast
qed

theorem secure_erase_passes_sequential_witness:
  "dd_status workstation 0 = 0 \<and> dd_status workstation 1 = 0 \<and> dd_status workstation 2 = 0
   \<and> passes_started (wipe_target workstation ''/dev/sdX'' ''/dev/zero'' 1048576 3 []) = 3
   \<and> dd_status flaky_workstation 0 = 0 \<and> dd_status flaky_workstation 1 \<noteq> 0
   \<and> passes_started (wipe_target flaky_workstation ''/dev/sdX'' ''/dev/zero'' 1048576 3 []) = 2
   \<and> passes_started (wipe_one flaky_workstation ''/dev/sdX'' ''/dev/zero'' (PyInt 1048576) 3 []) = 2"
proof -
  have 0: "dd_status workstation n = 0" for n
    by (simp add: workstation_def all_passes_succeed_def)
  have 1: "\<forall>i < nat 3. dd_status workstation i = 0"
    by (simp add: 0)
  have 2: "(1::nat) < nat 3"
    by simp
  have 3: "\<forall>i < 1. dd_status flaky_workstation i = 0"
    by (simp add: flaky_workstation_def second_pass_fails_def)
  have 4: "dd_status flaky_workstation 1 \<noteq> 0"
    by (simp add: flaky_workstation_def second_pass_fails_def)
  show ?thesis
    using secure_erase_passes_sequential
            [where h = workstation and N = 3 and path = "''/dev/sdX''"
               and source = "''/dev/zero''" and bs = 1048576]
          secure_erase_passes_sequential
            [where h = flaky_workstation and N = 3 and k = 1 and path = "''/dev/sdX''"
               and source = "''/dev/zero''" and bs = 1048576 and bs' = "PyInt 1048576"]
          1 2 3 4
    by (simp add: 0)
qed

subsection \<open>The erase command\<close>

lemma seq_returns: "fst (m t) = Inr x \<Longrightarrow> seq m f t = f x (snd (m t))"
  by (cases "m t") (simp add: seq_def)

lemma raise_run: "raise e t = (Inl e, t)"
  by (simp add: raise_def)

lemma wipe_one_returns: "fst (wipe_one h path source bs passes t) = Inr ()"
  by (simp add: wipe_one_unfold pass_loop_returns [OF wipe_one_pass_loop])

lemma wipe_one_extends:
  "\<exists>u. snd (wipe_one h path source bs passes t) = t @ Get_size path # u"
  using pass_loop_extends [OF wipe_one_pass_loop, of h path source bs passes "[1..passes]"
                             "t @ [Get_size path]"]
  by (auto simp: wipe_one_unfold)

lemma main_wipe_targets_Cons:
  "main_wipe_targets h source bs passes (tgt # rest) t =
     main_wipe_targets h source bs passes rest
       (if path_exists h tgt then snd (wipe_one h tgt source bs passes t)
        else t @ [Print (''[red]ERROR[/] '' @ tgt @ '' not found.'')])"
  by (simp add: seq_returns [OF wipe_one_returns])

lemma main_wipe_targets_returns:
  "fst (main_wipe_targets h source bs passes tgts t) = Inr ()"
proof (induction tgts arbitrary: t)
  case Nil
  show ?case by (simp add: ret_run)
next
  case (Cons tgt rest)
  show ?case by (simp only: main_wipe_targets_Cons Cons.IH)
qed

lemma main_wipe_targets_extends:
  "\<exists>u. snd (main_wipe_targets h source bs passes tgts t) = t @ u"
proof (induction tgts arbitrary: t)
  case Nil
  show ?case by (simp add: ret_run)
next
  case (Cons tgt rest)
  show ?case
  proof (cases "path_exists h tgt")
    case True
    from wipe_one_extends obtain u where u:
      "snd (wipe_one h tgt source bs passes t) = t @ Get_size tgt # u"
      by blast
    from Cons.IH [of "t @ Get_size tgt # u"] obtain v where
      "snd (main_wipe_targets h source bs passes rest (t @ Get_size tgt # u))
         = (t @ Get_size tgt # u) @ v"
      by blast
    with True u show ?thesis
      by (simp add: main_wipe_targets_Cons del: main_wipe_targets.simps)
  next
    case False
    from Cons.IH [of "t @ [Print (''[red]ERROR[/] '' @ tgt @ '' not found.'')]"] obtain v where
      "snd (main_wipe_targets h source bs passes rest
              (t @ [Print (''[red]ERROR[/] '' @ tgt @ '' not found.'')]))
         = (t @ [Print (''[red]ERROR[/] '' @ tgt @ '' not found.'')]) @ v"
      by blast
    with False show ?thesis
      by (simp add: main_wipe_targets_Cons del: main_wipe_targets.simps)
  qed
qed

lemma main_wipe_targets_visits:
  "tgt \<in> set tgts \<Longrightarrow>
   (if path_exists h tgt then Get_size tgt
    else Print (''[red]ERROR[/] '' @ tgt @ '' not found.''))
     \<in> set (snd (main_wipe_targets h source bs passes tgts t))"
proof (induction tgts arbitrary: t)
  case Nil
  then show ?case by simp
next
  case (Cons a rest)
  let ?t = "if path_exists h a then snd (wipe_one h a source bs passes t)
            else t @ [Print (''[red]ERROR[/] '' @ a @ '' not found.'')]"
  show ?case
  proof (cases "tgt = a")
    case True
    from wipe_one_extends obtain u where u:
      "snd (wipe_one h a source bs passes t) = t @ Get_size a # u"
      by blast
    from main_wipe_targets_extends [of h source bs passes rest ?t] obtain v where
      v: "snd (main_wipe_targets h source bs passes rest ?t) = ?t @ v"
      by blast
    have "(if path_exists h a then Get_size a
           else Print (''[red]ERROR[/] '' @ a @ '' not found.'')) \<in> set ?t"
      using u by simp
    with v True show ?thesis by (simp only: main_wipe_targets_Cons) auto
  next
    case False
    with Cons.prems have "tgt \<in> set rest" by simp
    from Cons.IH [OF this, of ?t] show ?thesis by (simp only: main_wipe_targets_Cons)
  qed
qed



lemma main_wipe_parser_value:
  "main_wipe_parser =
     Inr ([''-h'', ''--help'', ''-z'', ''--zero'', ''-r'', ''--random'', ''-p'', ''--passes'',
           ''-b'', ''--bs''], PyInt 1048576)"
  by code_simp

lemma wipe_rich_parser_value: "wipe_rich_parser = Inl (ArgumentError [''-h'', ''--help''])"
  by code_simp

lemma main_wipe_run:
  "main_wipe h argv [] =
     (case parse_wipe_args parse_passes parse_size (PyInt 1048576) argv of
        Inl e \<Rightarrow> (Inl e, [])
      | Inr args \<Rightarrow>
          if euid h \<noteq> 0 then (Inl Root_required, [Print ''[red]ERROR[/] Must run as root.''])
          else (Inr (),
                snd (main_wipe_targets h
                       (if args_random args then ''/dev/urandom'' else ''/dev/zero'')
                       (args_bs args) (args_passes args) (args_targets args) [])
                @ [Print ''[green]Secure wipe completed.[/]'']))"
  by (simp add: main_wipe_def main_wipe_parser_value emit_run raise_run
                seq_returns [OF main_wipe_targets_returns] split: sum.splits)










lemma main_wipe_processes_every_target:
  assumes "parse_wipe_args parse_passes parse_size (PyInt 1048576) argv = Inr args"
    and "euid h = 0"
  shows "fst (main_wipe h argv []) = Inr ()"
    and "last (snd (main_wipe h argv [])) = Print ''[green]Secure wipe completed.[/]''"
    and "tgt \<in> set (args_targets args) \<Longrightarrow>
         (if path_exists h tgt then Get_size tgt
          else Print (''[red]ERROR[/] '' @ tgt @ '' not found.''))
           \<in> set (snd (main_wipe h argv []))"
  using assms main_wipe_targets_visits [of tgt "args_targets args" h]
  by (simp_all add: main_wipe_run)

text \<open>
  C10. \<open>main\<close> of wipe-rich.py never reaches its loop over the targets: building the
  parser raises \<open>ArgumentError\<close>, since \<open>-h\<close> and \<open>--help\<close> are registered twice, and
  the run ends with status 1 and nothing added to the trace. The loop of
  \<open>main_wipe\<close> in secure-wipe-rich.py does what the claim says
  (\<open>main_wipe_processes_every_target\<close>).
\<close>

theorem wipe_rich_main_stops_in_parser:
  "wipe_rich_main h argv t = (Inl (ArgumentError [''-h'', ''--help'']), t)
   \<and> status (wipe_rich_main h argv t) = 1"
proof -
  have registered: "''-h'' \<in> set ArgumentParser"
    by (simp add: ArgumentParser_def)
  have parser: "wipe_rich_parser = Inl (ArgumentError [''-h'', ''--help''])"
    by (rule wipe_rich_parser_value)
  have run: "wipe_rich_main h argv t = (Inl (ArgumentError [''-h'', ''--help'']), t)"
    by (simp add: wipe_rich_main_def parser raise_run)
  then have "status (wipe_rich_main h argv t) = exit_status (ArgumentError [''-h'', ''--help''])"
    by (simp add: status_def)
  with run show ?thesis
    by simp
qed






subsection \<open>Block count and size\<close>








subsection \<open>The numeric-expression parsers\<close>

lemma parse_numeric_positive: "parse_numeric s = Inr n \<Longrightarrow> 1 \<le> n"
  by (auto simp: parse_numeric_def Let_def split: option.splits prod.splits pyval.splits if_splits)

lemma parse_passes_positive: "parse_passes s = Inr n \<Longrightarrow> 1 \<le> n"
  by (auto simp: parse_passes_def split: option.splits pyval.splits if_splits)

lemma parse_numeric_value:
  assumes "parse_numeric s = Inr n"
  shows "\<exists>body suff v. fullmatch s = Some (body, suff) \<and> literal_eval body = Some (PyInt v)
           \<and> 1 \<le> v \<and> n = v * unit_factor suff"
proof (cases "fullmatch s")
  case None
  with assms show ?thesis by (simp add: parse_numeric_def)
next
  case (Some m)
  obtain body suff where m: "m = (body, suff)" by (cases m)
  show ?thesis
  proof (cases "literal_eval body")
    case None
    with assms Some m show ?thesis by (simp add: parse_numeric_def)
  next
    case (Some val)
    show ?thesis
    proof (cases val)
      case PyEmptyTuple
      with assms \<open>fullmatch s = Some m\<close> m Some show ?thesis by (simp add: parse_numeric_def)
    next
      case (PyInt v)
      with assms \<open>fullmatch s = Some m\<close> m Some have "1 \<le> v \<and> n = v * unit_factor suff"
        by (cases suff) (simp_all add: parse_numeric_def unit_factor_def Let_def split: if_splits)
      with \<open>fullmatch s = Some m\<close> m Some PyInt show ?thesis by blast
    qed
  qed
qed

lemma parse_size_value:
  assumes "parse_size s = Inr x"
  shows "\<exists>expr unit number. fullmatch s = Some (expr, unit) \<and> literal_eval expr = Some number
           \<and> x = py_mul number (unit_factor unit)"
proof (cases "fullmatch s")
  case None
  with assms show ?thesis by (simp add: parse_size_def)
next
  case (Some m)
  obtain expr unit where m: "m = (expr, unit)" by (cases m)
  show ?thesis
  proof (cases "literal_eval expr")
    case None
    with assms Some m show ?thesis by (simp add: parse_size_def)
  next
    case (Some number)
    have "py_mul number 1 = number" by (cases number) simp_all
    with assms \<open>fullmatch s = Some m\<close> m Some have "x = py_mul number (unit_factor unit)"
      by (cases unit) (simp_all add: parse_size_def unit_factor_def split: if_splits)
    with \<open>fullmatch s = Some m\<close> m Some show ?thesis by blast
  qed
qed

lemma parsers_reject_arithmetic:
  "parse_numeric ''2*2'' = Inl (ArgumentTypeError (''Cannot evaluate '' @ quoted ''2*2''))"
  "parse_numeric ''(1+3)M'' = Inl (ArgumentTypeError (''Cannot evaluate '' @ quoted ''(1+3)''))"
  "parse_passes ''2*2'' = Inl (ArgumentTypeError (''Invalid passes '' @ quoted ''2*2''))"
  "parse_size ''(1+3)M'' = Inl (ArgumentTypeError (''Invalid arithmetic in size '' @ quoted ''(1+3)''))"
  by code_simp+

text \<open>
  C2. \<open>parse_size\<close> returns what \<open>literal_eval\<close> gave it without testing it: for
  \<open>0\<close> it returns 0, for \<open>-1M\<close> it returns \<open>-1048576\<close>, and for \<open>()\<close> the empty
  tuple, none of them a positive integer. \<open>parse_numeric\<close> rejects the same three
  texts.
\<close>

theorem parse_size_returns_non_positive:
  "parse_size ''0'' = Inr (PyInt 0)
   \<and> parse_size ''-1M'' = Inr (PyInt (- 1048576))
   \<and> parse_size ''()'' = Inr PyEmptyTuple
   \<and> isl (parse_numeric ''0'') \<and> isl (parse_numeric ''-1M'') \<and> isl (parse_numeric ''()'')"
proof -
  have 1: "parse_size ''0'' = Inr (PyInt 0)"
    by code_simp
  have 2: "parse_size ''-1M'' = Inr (PyInt (- 1048576))"
    by code_simp
  have 3: "parse_size ''()'' = Inr PyEmptyTuple"
    by code_simp
  have 4: "isl (parse_numeric ''0'')"
    by code_simp
  have 5: "isl (parse_numeric ''-1M'')"
    by code_simp
  have 6: "isl (parse_numeric ''()'')"
    by code_simp
  from 1 2 3 4 5 6 show ?thesis
    by blast
qed

end
